theory Spec2Isabelle
  imports Main "HOL-Library.Sublist"
begin

section \<open>Python values\<close>

text \<open>
  A Python \<open>str\<close> is a sequence of Unicode code points: \<open>len\<close>, slicing and \<open>in\<close>
  count code points. A string is therefore a list of code points (natural numbers); an
  ASCII literal of the source is written \<open>py ''...''\<close>, any other character by its code
  point.
\<close>

type_synonym pystr = "nat list"

abbreviation py :: "string \<Rightarrow> pystr" where
  "py s \<equiv> map (\<lambda>c. nat (of_char c)) s"

text \<open>The exceptions of the source that the model needs, as values.\<close>

datatype py_error =
    IndexError
  | JSONDecodeError
  | ValueError
  | NodeNotFound
  | NetworkXNoPath
  | MarkupError

text \<open>
  \<open>needle in haystack\<close> on strings: the needle occurs as a contiguous run. The
  search tries every start position from the left.
\<close>

fun startswith :: "'a list \<Rightarrow> 'a list \<Rightarrow> bool" where
  "startswith ys [] = True"
| "startswith [] (x # xs) = False"
| "startswith (y # ys) (x # xs) = (x = y \<and> startswith ys xs)"

fun str_contains :: "'a list \<Rightarrow> 'a list \<Rightarrow> bool" where
  "str_contains [] needle = (needle = [])"
| "str_contains (c # cs) needle = (startswith (c # cs) needle \<or> str_contains cs needle)"

text \<open>\<open>str.isspace\<close> of one character, and \<open>str.strip()\<close>.\<close>

definition is_space :: "nat \<Rightarrow> bool" where
  "is_space c =
     ((9 \<le> c \<and> c \<le> 13) \<or> (28 \<le> c \<and> c \<le> 32) \<or> c = 133 \<or> c = 160 \<or> c = 5760
      \<or> (8192 \<le> c \<and> c \<le> 8202) \<or> c = 8232 \<or> c = 8233 \<or> c = 8239 \<or> c = 8287
      \<or> c = 12288)"

definition strip :: "pystr \<Rightarrow> pystr" where
  "strip s = rev (dropWhile is_space (rev (dropWhile is_space s)))"

text \<open>\<open>s.split('\n\n')\<close>: the pieces between the non-overlapping separators, found left to right.\<close>

fun split_paragraphs :: "pystr \<Rightarrow> pystr list" where
  "split_paragraphs [] = [[]]"
| "split_paragraphs [c] = [[c]]"
| "split_paragraphs (a # b # cs) =
     (if a = 10 \<and> b = 10 then [] # split_paragraphs cs
      else (case split_paragraphs (b # cs) of
              [] \<Rightarrow> [[a]]
            | p # ps \<Rightarrow> (a # p) # ps))"

text \<open>\<open>sep.join(parts)\<close>.\<close>

fun join :: "pystr \<Rightarrow> pystr list \<Rightarrow> pystr" where
  "join sep [] = []"
| "join sep [p] = p"
| "join sep (p # q # ps) = p @ sep @ join sep (q # ps)"

text \<open>\<open>xs[-n:]\<close> for a positive \<open>n\<close>, and \<open>xs[:k]\<close> for any integer \<open>k\<close>.\<close>

definition last_n :: "nat \<Rightarrow> 'a list \<Rightarrow> 'a list" where
  "last_n n xs = drop (length xs - n) xs"

definition slice_to :: "int \<Rightarrow> 'a list \<Rightarrow> 'a list" where
  "slice_to k xs = (if 0 \<le> k then take (nat k) xs else take (length xs - nat (- k)) xs)"

text \<open>\<open>str(n)\<close> of a non-negative integer.\<close>

fun str_of_nat :: "nat \<Rightarrow> pystr" where
  "str_of_nat n = (if n < 10 then [48 + n] else str_of_nat (n div 10) @ [48 + n mod 10])"

declare str_of_nat.simps [simp del]

text \<open>
  A \<open>dict\<close> keeps its keys in the order of their first insertion; assigning to an existing
  key replaces the value in place. It is an association list with distinct keys.
\<close>

fun dict_set :: "'k \<Rightarrow> 'v \<Rightarrow> ('k \<times> 'v) list \<Rightarrow> ('k \<times> 'v) list" where
  "dict_set k v [] = [(k, v)]"
| "dict_set k v ((k', v') # d) = (if k' = k then (k, v) # d else (k', v') # dict_set k v d)"

definition dict_keys :: "('k \<times> 'v) list \<Rightarrow> 'k list" where
  "dict_keys d = map fst d"

definition dict_get :: "('k \<times> 'v) list \<Rightarrow> 'k \<Rightarrow> 'v option" where
  "dict_get d k = map_of d k"

section \<open>Schema (schema.py)\<close>

datatype EntityType =
    CONCEPT | MENTAL_MODEL | PRINCIPLE | PERSON | COMPANY | CASE_STUDY | BOOK | DISCIPLINE
  | COGNITIVE_BIAS

datatype RelationType =
    EXPLAINS | APPLIES_TO | DERIVED_FROM | RELATED_TO | INFLUENCED_BY | COLLABORATED_WITH
  | MENTIONED | SUPPORTS | OPPOSES | WARNS_AGAINST | IS_A | PART_OF | LEADS_TO

text \<open>The \<open>.value\<close> of the two string enums.\<close>

fun entity_type_value :: "EntityType \<Rightarrow> pystr" where
  "entity_type_value CONCEPT = [0x6982, 0x5FF5]"
| "entity_type_value MENTAL_MODEL = [0x601D, 0x7EF4, 0x6A21, 0x578B]"
| "entity_type_value PRINCIPLE = [0x539F, 0x5219]"
| "entity_type_value PERSON = [0x4EBA, 0x7269]"
| "entity_type_value COMPANY = [0x516C, 0x53F8]"
| "entity_type_value CASE_STUDY = [0x6848, 0x4F8B]"
| "entity_type_value BOOK = [0x4E66, 0x7C4D]"
| "entity_type_value DISCIPLINE = [0x5B66, 0x79D1]"
| "entity_type_value COGNITIVE_BIAS = [0x8BA4, 0x77E5, 0x504F, 0x8BEF]"

fun relation_type_value :: "RelationType \<Rightarrow> pystr" where
  "relation_type_value EXPLAINS = [0x89E3, 0x91CA]"
| "relation_type_value APPLIES_TO = [0x5E94, 0x7528, 0x4E8E]"
| "relation_type_value DERIVED_FROM = [0x6E90, 0x81EA]"
| "relation_type_value RELATED_TO = [0x76F8, 0x5173]"
| "relation_type_value INFLUENCED_BY = [0x53D7, 0x5F71, 0x54CD, 0x4E8E]"
| "relation_type_value COLLABORATED_WITH = [0x5408, 0x4F5C]"
| "relation_type_value MENTIONED = [0x63D0, 0x53CA]"
| "relation_type_value SUPPORTS = [0x652F, 0x6301]"
| "relation_type_value OPPOSES = [0x53CD, 0x5BF9]"
| "relation_type_value WARNS_AGAINST = [0x8B66, 0x544A]"
| "relation_type_value IS_A = [0x662F, 0x4E00, 0x79CD]"
| "relation_type_value PART_OF = [0x5C5E, 0x4E8E]"
| "relation_type_value LEADS_TO = [0x5BFC, 0x81F4]"

text \<open>
  The dataclasses \<open>Entity\<close> and \<open>Relationship\<close>. The \<open>attributes\<close> dict of an entity
  and the float \<open>weight\<close> of a relationship are stored and never read by the operations
  below; they are left out.
\<close>

record Entity =
  name :: pystr
  entity_type :: EntityType
  description :: pystr
  source_chapter :: pystr

record Relationship =
  source :: pystr
  target :: pystr
  relation_type :: RelationType
  rel_description :: pystr
  source_text :: pystr

section \<open>Knowledge graph (graph\_builder.py)\<close>

subsection \<open>The directed graph of NetworkX\<close>

text \<open>
  \<open>nx.DiGraph\<close> keeps a dict of nodes with their attributes and, for each node, dicts of
  its successors and predecessors with the edge attributes; all of them iterate in the
  order of first insertion. The model keeps the node dict and one edge dict keyed by the
  ordered pair, from which successors and predecessors are read in that order. A node
  that only \<open>add_edge\<close> created has no attributes (\<open>None\<close>).
\<close>

record node_attrs =
  node_entity_type :: pystr
  node_description :: pystr
  node_chapter :: pystr

record edge_attrs =
  edge_relation_type :: pystr
  edge_description :: pystr

record DiGraph =
  nodes :: "(pystr \<times> node_attrs option) list"
  edges :: "((pystr \<times> pystr) \<times> edge_attrs) list"

definition empty_DiGraph :: DiGraph where
  "empty_DiGraph = \<lparr>nodes = [], edges = []\<rparr>"

definition has_node :: "DiGraph \<Rightarrow> pystr \<Rightarrow> bool" where
  "has_node g n = (n \<in> set (dict_keys (nodes g)))"

definition add_node :: "pystr \<Rightarrow> node_attrs \<Rightarrow> DiGraph \<Rightarrow> DiGraph" where
  "add_node n attrs g = g\<lparr>nodes := dict_set n (Some attrs) (nodes g)\<rparr>"

definition ensure_node :: "pystr \<Rightarrow> DiGraph \<Rightarrow> DiGraph" where
  "ensure_node n g = (if has_node g n then g else g\<lparr>nodes := nodes g @ [(n, None)]\<rparr>)"

definition add_edge :: "pystr \<Rightarrow> pystr \<Rightarrow> edge_attrs \<Rightarrow> DiGraph \<Rightarrow> DiGraph" where
  "add_edge u v attrs g =
     (let g1 = ensure_node v (ensure_node u g)
      in g1\<lparr>edges := dict_set (u, v) attrs (edges g1)\<rparr>)"

definition successors :: "DiGraph \<Rightarrow> pystr \<Rightarrow> pystr list" where
  "successors g n = map (\<lambda>e. snd (fst e)) (filter (\<lambda>e. fst (fst e) = n) (edges g))"

definition predecessors :: "DiGraph \<Rightarrow> pystr \<Rightarrow> pystr list" where
  "predecessors g n = map (\<lambda>e. fst (fst e)) (filter (\<lambda>e. snd (fst e) = n) (edges g))"

definition get_edge_data :: "DiGraph \<Rightarrow> pystr \<Rightarrow> pystr \<Rightarrow> edge_attrs option" where
  "get_edge_data g u v = dict_get (edges g) (u, v)"

text \<open>
  \<open>nx.all_simple_paths(G, source, target, cutoff)\<close>, as NetworkX 3 implements it. An
  absent source raises \<open>NodeNotFound\<close>. A target that is a node is the only target; a
  target that is not a node is taken as an iterable of target nodes, and a Python string
  iterates as its one-character strings, so the \<open>NodeNotFound\<close> of that branch (raised
  on a \<open>TypeError\<close> only) cannot occur for string node names. The search is depth first
  over the successors in adjacency order; \<open>visit\<close> is entered with the path so far and
  a node \<open>v\<close> not on it, with \<open>k\<close> the number of edges that may still be added. A path
  is produced whenever it reaches a target, and it is extended only while the cutoff
  allows it and some target is not yet on it.
\<close>

fun visit :: "DiGraph \<Rightarrow> pystr list \<Rightarrow> nat \<Rightarrow> pystr list \<Rightarrow> pystr \<Rightarrow> pystr list list" where
  "visit g targets 0 path v = (if v \<in> set targets then [path @ [v]] else [])"
| "visit g targets (Suc k) path v =
     (if v \<in> set targets then [path @ [v]] else []) @
     (if \<not> set targets \<subseteq> set (path @ [v])
      then concat (map (visit g targets k (path @ [v]))
                    (filter (\<lambda>w. w \<notin> set (path @ [v])) (successors g v)))
      else [])"

definition all_simple_paths :: "DiGraph \<Rightarrow> pystr \<Rightarrow> pystr \<Rightarrow> int \<Rightarrow> py_error + pystr list list" where
  "all_simple_paths g src tgt cutoff =
     (if \<not> has_node g src then Inl NodeNotFound
      else (let targets = (if has_node g tgt then [tgt] else map (\<lambda>c. [c]) tgt)
            in if 0 \<le> cutoff \<and> targets \<noteq> [] then Inr (visit g targets (nat cutoff) [] src)
               else Inr []))"

subsection \<open>KnowledgeGraph\<close>

record KnowledgeGraph =
  graph :: DiGraph
  entities :: "(pystr \<times> Entity) list"
  relationships :: "Relationship list"

definition empty_KnowledgeGraph :: KnowledgeGraph where
  "empty_KnowledgeGraph = \<lparr>graph = empty_DiGraph, entities = [], relationships = []\<rparr>"

definition add_entity :: "Entity \<Rightarrow> KnowledgeGraph \<Rightarrow> KnowledgeGraph" where
  "add_entity entity kg =
     kg\<lparr>entities := dict_set (name entity) entity (entities kg),
        graph := add_node (name entity)
                   \<lparr>node_entity_type = entity_type_value (entity_type entity),
                    node_description = description entity,
                    node_chapter = source_chapter entity\<rparr>
                   (graph kg)\<rparr>"

definition add_relationship :: "Relationship \<Rightarrow> KnowledgeGraph \<Rightarrow> KnowledgeGraph" where
  "add_relationship rel kg =
     kg\<lparr>relationships := relationships kg @ [rel],
        graph := add_edge (source rel) (target rel)
                   \<lparr>edge_relation_type = relation_type_value (relation_type rel),
                    edge_description = rel_description rel\<rparr>
                   (graph kg)\<rparr>"

text \<open>A sequence of the two mutating operations.\<close>

datatype graph_op = AddEntity Entity | AddRelationship Relationship

fun apply_op :: "KnowledgeGraph \<Rightarrow> graph_op \<Rightarrow> KnowledgeGraph" where
  "apply_op kg (AddEntity e) = add_entity e kg"
| "apply_op kg (AddRelationship r) = add_relationship r kg"

definition apply_ops :: "KnowledgeGraph \<Rightarrow> graph_op list \<Rightarrow> KnowledgeGraph" where
  "apply_ops kg ops = foldl apply_op kg ops"

text \<open>\<open>find_paths\<close>: both exceptions of the library call give the empty list.\<close>

definition find_paths :: "KnowledgeGraph \<Rightarrow> pystr \<Rightarrow> pystr \<Rightarrow> int \<Rightarrow> pystr list list" where
  "find_paths kg src tgt max_length =
     (case all_simple_paths (graph kg) src tgt max_length of
        Inr paths \<Rightarrow> paths
      | Inl e \<Rightarrow> [])"

text \<open>
  \<open>get_neighbors\<close> returns a dict: the empty dict for a name that is not a node, else the
  two keys \<open>"in"\<close> and \<open>"out"\<close>, each with a list of \<open>{"entity", "relation"}\<close> dicts. The
  \<open>depth\<close> argument is not used by the source. Every predecessor and successor has its
  edge, so \<open>get_edge_data\<close> finds the attributes; \<open>relation_of\<close> reads their
  \<open>relation_type\<close>.
\<close>

record neighbor =
  entity :: pystr
  relation :: pystr

definition relation_of :: "edge_attrs option \<Rightarrow> pystr" where
  "relation_of edge_data = (case edge_data of None \<Rightarrow> [] | Some d \<Rightarrow> edge_relation_type d)"

definition get_neighbors :: "KnowledgeGraph \<Rightarrow> pystr \<Rightarrow> (pystr \<times> neighbor list) list" where
  "get_neighbors kg entity_name =
     (if \<not> has_node (graph kg) entity_name then []
      else [(py ''in'',
             map (\<lambda>pred. \<lparr>entity = pred,
                           relation = relation_of (get_edge_data (graph kg) pred entity_name)\<rparr>)
               (predecessors (graph kg) entity_name)),
            (py ''out'',
             map (\<lambda>succ. \<lparr>entity = succ,
                           relation = relation_of (get_edge_data (graph kg) entity_name succ)\<rparr>)
               (successors (graph kg) entity_name))])"

section \<open>Entity matcher (query\_engine.py)\<close>

text \<open>
  \<open>GraphQueryEngine._fuzzy_match_entity\<close>, over the keys of \<open>self.graph.entities\<close> in
  dict order. \<open>str.lower\<close> is a parameter: the function is the same whatever the case
  mapping is.
\<close>

fun partial_match :: "(pystr \<Rightarrow> pystr) \<Rightarrow> pystr \<Rightarrow> pystr list \<Rightarrow> pystr option" where
  "partial_match lower query_lower [] = None"
| "partial_match lower query_lower (nm # names) =
     (if str_contains (lower nm) query_lower \<or> str_contains query_lower (lower nm)
      then Some nm
      else partial_match lower query_lower names)"

definition fuzzy_match_entity :: "(pystr \<Rightarrow> pystr) \<Rightarrow> pystr list \<Rightarrow> pystr \<Rightarrow> pystr option" where
  "fuzzy_match_entity lower entity_names query =
     (let query_lower = lower query
      in if query \<in> set entity_names then Some query
         else partial_match lower query_lower entity_names)"

text \<open>The case mapping on ASCII letters, for concrete runs; other code points are uncased.\<close>

definition ascii_lower :: "pystr \<Rightarrow> pystr" where
  "ascii_lower s = map (\<lambda>c. if 65 \<le> c \<and> c \<le> 90 then c + 32 else c) s"

section \<open>Vector store (vector\_store.py)\<close>

record TextChunk =
  chunk_text :: pystr
  chunk_chapter :: pystr
  chunk_index :: int

text \<open>
  The store holds the chunk list and the embedding matrix (\<open>None\<close> before a build or
  load), a matrix being the list of its rows.
\<close>

record 'v VectorStore =
  chunks :: "TextChunk list"
  embeddings :: "'v list option"

subsection \<open>Chunking\<close>

text \<open>
  \<open>_split_text\<close> after its \<open>re.split\<close>: the argument \<open>sections\<close> is the list that
  \<open>re.split\<close> returns, section bodies at the even positions and the captured chapter
  titles at the odd ones. \<open>para_step\<close> is one round of the paragraph loop on the pair of
  the running buffer \<open>current_chunk\<close> and the chunk list.
\<close>

definition paragraph_sep :: pystr where
  "paragraph_sep = [10, 10]"

definition new_chunk :: "pystr \<Rightarrow> pystr \<Rightarrow> TextChunk list \<Rightarrow> TextChunk" where
  "new_chunk current_chunk current_chapter cs =
     \<lparr>chunk_text = strip current_chunk, chunk_chapter = current_chapter,
      chunk_index = int (length cs)\<rparr>"

definition para_step ::
  "int \<Rightarrow> int \<Rightarrow> pystr \<Rightarrow> pystr \<times> TextChunk list \<Rightarrow> pystr \<Rightarrow> pystr \<times> TextChunk list" where
  "para_step chunk_size chunk_overlap current_chapter st para0 =
     (let current_chunk = fst st; cs = snd st; para = strip para0
      in if para = [] then (current_chunk, cs)
         else if int (length current_chunk) + int (length para) < chunk_size
         then (current_chunk @ para @ paragraph_sep, cs)
         else (let cs' = (if current_chunk \<noteq> []
                          then cs @ [new_chunk current_chunk current_chapter cs]
                          else cs)
               in if 0 < chunk_overlap \<and> chunk_overlap < int (length current_chunk)
                  then (last_n (nat chunk_overlap) current_chunk @ para @ paragraph_sep, cs')
                  else (para @ paragraph_sep, cs')))"

definition split_section ::
  "int \<Rightarrow> int \<Rightarrow> pystr \<Rightarrow> pystr \<Rightarrow> TextChunk list \<Rightarrow> TextChunk list" where
  "split_section chunk_size chunk_overlap current_chapter section0 cs =
     (let sec = strip section0
      in if length sec < 50 then cs
         else (let st = foldl (para_step chunk_size chunk_overlap current_chapter) ([], cs)
                          (split_paragraphs sec)
               in if strip (fst st) \<noteq> []
                  then snd st @ [new_chunk (fst st) current_chapter (snd st)]
                  else snd st))"

fun sections_loop ::
  "int \<Rightarrow> int \<Rightarrow> nat \<Rightarrow> pystr \<Rightarrow> pystr list \<Rightarrow> TextChunk list \<Rightarrow> TextChunk list" where
  "sections_loop chunk_size chunk_overlap i current_chapter [] cs = cs"
| "sections_loop chunk_size chunk_overlap i current_chapter (sec # rest) cs =
     (if i mod 2 = 1 then sections_loop chunk_size chunk_overlap (Suc i) sec rest cs
      else sections_loop chunk_size chunk_overlap (Suc i) current_chapter rest
             (split_section chunk_size chunk_overlap current_chapter sec cs))"

definition unknown_chapter :: pystr where
  "unknown_chapter = [0x672A, 0x77E5, 0x7AE0, 0x8282]"

definition split_text :: "pystr list \<Rightarrow> int \<Rightarrow> int \<Rightarrow> TextChunk list" where
  "split_text sections chunk_size chunk_overlap =
     sections_loop chunk_size chunk_overlap 0 unknown_chapter sections []"

subsection \<open>Search\<close>

text \<open>
  \<open>np.argsort\<close> returns indices that sort its argument in ascending order. The source
  calls it with the default kind, which is not stable: the order in which the indices of
  equal scores come out is not specified. The sort is therefore the parameter \<open>asort\<close>
  of the search, and \<open>is_argsort\<close> is all that is known of its result: a permutation
  of the indices along which the scores ascend.
\<close>

definition is_argsort :: "'s::linorder list \<Rightarrow> nat list \<Rightarrow> bool" where
  "is_argsort xs idxs =
     (distinct idxs \<and> set idxs = {0..<length xs} \<and> sorted (map (\<lambda>i. xs ! i) idxs))"

text \<open>
  The result loop of \<open>search\<close>: \<open>self.chunks[idx]\<close> raises \<open>IndexError\<close> when the
  matrix has more rows than there are chunks.
\<close>

fun collect_results ::
  "TextChunk list \<Rightarrow> 's list \<Rightarrow> nat list \<Rightarrow> py_error + (TextChunk \<times> 's) list" where
  "collect_results cs sims [] = Inr []"
| "collect_results cs sims (idx # rest) =
     (if idx < length cs
      then (case collect_results cs sims rest of
              Inl e \<Rightarrow> Inl e
            | Inr results \<Rightarrow> Inr ((cs ! idx, sims ! idx) # results))
      else Inl IndexError)"

text \<open>
  \<open>search\<close>. The embedding of the query and the cosine similarity with one row are
  floating-point computations of the embedding backend and NumPy: \<open>cosine query row\<close>
  stands for their result, in a linear order (the similarities of finite vectors are
  finite floats).
\<close>

definition search ::
  "('s::linorder list \<Rightarrow> nat list) \<Rightarrow> (pystr \<Rightarrow> 'v \<Rightarrow> 's) \<Rightarrow> 'v VectorStore \<Rightarrow> pystr \<Rightarrow> int
     \<Rightarrow> py_error + (TextChunk \<times> 's) list" where
  "search asort cosine st query top_k =
     (case embeddings st of
        None \<Rightarrow> Inr []
      | Some rows \<Rightarrow>
          if length (chunks st) = 0 then Inr []
          else (let similarities = map (cosine query) rows;
                    top_indices = slice_to top_k (rev (asort similarities))
                in collect_results (chunks st) similarities top_indices))"

subsection \<open>Persistence\<close>

text \<open>
  The directory of an index holds two files, \<open>chunks.json\<close> and \<open>embeddings.npy\<close>. A
  file is absent, present with content that its reader rejects, or present with a value.
\<close>

datatype 'a artifact = Absent | Unreadable | Stored 'a

record 'v index_dir =
  chunks_json :: "TextChunk list artifact"
  embeddings_npy :: "'v list artifact"

text \<open>
  \<open>load\<close> returns its outcome (the boolean, or the exception that a reader raised) and
  the store as it is afterwards.
\<close>

definition load :: "'v VectorStore \<Rightarrow> 'v index_dir \<Rightarrow> (py_error + bool) \<times> 'v VectorStore" where
  "load st dir =
     (if chunks_json dir = Absent \<or> embeddings_npy dir = Absent then (Inr False, st)
      else (case chunks_json dir of
              Stored chunks_data \<Rightarrow>
                (case embeddings_npy dir of
                   Stored m \<Rightarrow> (Inr True, st\<lparr>chunks := chunks_data, embeddings := Some m\<rparr>)
                 | _ \<Rightarrow> (Inl ValueError, st\<lparr>chunks := chunks_data\<rparr>))
            | _ \<Rightarrow> (Inl JSONDecodeError, st)))"

subsection \<open>Hybrid query engine\<close>

text \<open>
  A message of the conversation history is a dict that is read with \<open>.get\<close>: each of the
  keys \<open>"role"\<close> and \<open>"content"\<close> may be missing.
\<close>

record message =
  role :: "pystr option"
  content :: "pystr option"

definition content_of :: "message \<Rightarrow> pystr" where
  "content_of msg = (case content msg of None \<Rightarrow> [] | Some c \<Rightarrow> c)"

definition is_user :: "message \<Rightarrow> bool" where
  "is_user msg = (role msg = Some (py ''user''))"

text \<open>The loop of \<open>_build_search_query\<close> over the window \<open>history[-4:]\<close>.\<close>

fun user_turns :: "message list \<Rightarrow> pystr list" where
  "user_turns [] = []"
| "user_turns (msg # rest) =
     (if is_user msg then take 100 (content_of msg) # user_turns rest else user_turns rest)"

definition build_search_query :: "pystr \<Rightarrow> message list option \<Rightarrow> pystr" where
  "build_search_query question history =
     (case history of
        None \<Rightarrow> question
      | Some h \<Rightarrow>
          if h = [] then question
          else (let recent_context = user_turns (last_n 4 h)
                in if recent_context \<noteq> []
                   then join (py '' '') recent_context @ py '' '' @ question
                   else question))"

text \<open>
  The wording of the claim about the search query, for comparison: the last two user
  turns of the whole history, each cut to 100 characters, then the question.
\<close>

definition spec_search_query :: "pystr \<Rightarrow> message list option \<Rightarrow> pystr" where
  "spec_search_query question history =
     (case history of
        None \<Rightarrow> question
      | Some h \<Rightarrow>
          (let turns = map (\<lambda>msg. take 100 (content_of msg)) (last_n 2 (filter is_user h))
           in if turns \<noteq> [] then join (py '' '') turns @ py '' '' @ question else question))"

text \<open>The character heuristic shared by \<open>_get_matched_entities\<close> and \<open>_get_graph_context\<close>.\<close>

definition stop_chars :: pystr where
  "stop_chars = [0xFF1F] @ py ''?'' @
     [0x7684, 0x662F, 0x4EC0, 0x4E48, 0x600E, 0x4E48, 0x5982, 0x4F55, 0x4E3A]"

definition name_matches :: "pystr \<Rightarrow> pystr \<Rightarrow> bool" where
  "name_matches question nm =
     list_ex (\<lambda>ch. ch \<in> set nm) (filter (\<lambda>ch. ch \<notin> set stop_chars) question)"

record matched_entity =
  me_name :: pystr
  me_type :: pystr
  me_description :: pystr

definition get_matched_entities :: "KnowledgeGraph option \<Rightarrow> pystr \<Rightarrow> matched_entity list" where
  "get_matched_entities g question =
     (case g of
        None \<Rightarrow> []
      | Some kg \<Rightarrow>
          take 5 (map (\<lambda>(nm, e). \<lparr>me_name = nm, me_type = entity_type_value (entity_type e),
                                   me_description = description e\<rparr>)
                    (filter (\<lambda>(nm, e). name_matches question nm) (entities kg))))"

text \<open>
  Citations. The comparison \<open>score > 0.3\<close> and \<open>round(score, 3)\<close> are floating-point
  operations: the constant and the rounding are the parameters \<open>threshold\<close> and
  \<open>round3\<close>.
\<close>

record 's citation =
  cit_id :: nat
  cit_chapter :: pystr
  cit_text :: pystr
  cit_score :: 's

fun citations_from ::
  "'s::linorder \<Rightarrow> ('s \<Rightarrow> 's) \<Rightarrow> nat \<Rightarrow> (TextChunk \<times> 's) list \<Rightarrow> 's citation list" where
  "citations_from threshold round3 i [] = []"
| "citations_from threshold round3 i ((chunk, score) # rest) =
     (if threshold < score
      then \<lparr>cit_id = i + 1, cit_chapter = chunk_chapter chunk,
            cit_text = (if 300 < length (chunk_text chunk)
                        then take 300 (chunk_text chunk) @ py ''...''
                        else chunk_text chunk),
            cit_score = round3 score\<rparr> # citations_from threshold round3 (Suc i) rest
      else citations_from threshold round3 (Suc i) rest)"

definition extract_citations ::
  "'s::linorder \<Rightarrow> ('s \<Rightarrow> 's) \<Rightarrow> (TextChunk \<times> 's) list \<Rightarrow> 's citation list" where
  "extract_citations threshold round3 vector_results =
     citations_from threshold round3 0 vector_results"

text \<open>\<open>_get_graph_context\<close>: the lines of every matching entity, cut to ten lines.\<close>

definition entity_lines :: "KnowledgeGraph \<Rightarrow> pystr \<times> Entity \<Rightarrow> pystr list" where
  "entity_lines kg item =
     (let nm = fst item; e = snd item
      in (py ''- **'' @ nm @ py ''**'' @ [0xFF08] @ entity_type_value (entity_type e)
            @ [0xFF09, 0xFF1A] @ description e)
         # (case dict_get (get_neighbors kg nm) (py ''out'') of
              None \<Rightarrow> []
            | Some outs \<Rightarrow>
                map (\<lambda>rel. py ''  '' @ [0x2192] @ py '' '' @ relation rel
                             @ py '' '' @ [0x2192] @ py '' '' @ entity rel)
                  (take 3 outs)))"

definition get_graph_context :: "KnowledgeGraph option \<Rightarrow> pystr \<Rightarrow> pystr" where
  "get_graph_context g question =
     (case g of
        None \<Rightarrow> []
      | Some kg \<Rightarrow>
          join [10] (take 10 (concat (map (entity_lines kg)
                       (filter (\<lambda>item. name_matches question (fst item)) (entities kg))))))"

text \<open>\<open>_build_context\<close>.\<close>

fun passage_lines :: "'s::linorder \<Rightarrow> nat \<Rightarrow> (TextChunk \<times> 's) list \<Rightarrow> pystr list" where
  "passage_lines threshold i [] = []"
| "passage_lines threshold i ((chunk, score) # rest) =
     (if threshold < score
      then [py ''**['' @ str_of_nat (i + 1) @ py ''] '' @ [0x6765, 0x6E90, 0xFF1A]
              @ chunk_chapter chunk @ py ''**'',
            py ''> '' @ take 500 (chunk_text chunk) @ py ''...'',
            []]
      else [])
     @ passage_lines threshold (Suc i) rest"

definition build_context :: "'s::linorder \<Rightarrow> (TextChunk \<times> 's) list \<Rightarrow> pystr \<Rightarrow> pystr" where
  "build_context threshold vector_results graph_context =
     join [10]
       ((if vector_results \<noteq> []
         then (py ''## '' @ [0x1F4D6] @ py '' '' @ [0x4E66, 0x4E2D, 0x76F8, 0x5173, 0x539F, 0x6587, 10])
              # passage_lines threshold 0 vector_results
         else [])
        @ (if graph_context \<noteq> []
           then [[10] @ py ''## '' @ [0x1F517] @ py '' ''
                   @ [0x77E5, 0x8BC6, 0x56FE, 0x8C31, 0x4E2D, 0x7684, 0x76F8, 0x5173, 0x6982, 0x5FF5, 10],
                 graph_context]
           else []))"

text \<open>\<open>re.sub(r'<[^>]+>', '', content)\<close>: every \<open><\<close> that is followed by at least one
  character other than \<open>>\<close> and then a \<open>>\<close> is removed with all of that.\<close>

function strip_tags :: "pystr \<Rightarrow> pystr" where
  "strip_tags [] = []"
| "strip_tags (c # cs) =
     (if c = 60 \<and> takeWhile (\<lambda>x. x \<noteq> 62) cs \<noteq> [] \<and> dropWhile (\<lambda>x. x \<noteq> 62) cs \<noteq> []
      then strip_tags (tl (dropWhile (\<lambda>x. x \<noteq> 62) cs))
      else c # strip_tags cs)"
  by pat_completeness auto
termination
proof (relation "measure length")
  fix c :: nat and cs :: "nat list"
  have "length (tl (dropWhile (\<lambda>x. x \<noteq> 62) cs)) \<le> length cs"
    using length_dropWhile_le[of "\<lambda>x. x \<noteq> 62" cs] by simp
  then show "(tl (dropWhile (\<lambda>x. x \<noteq> 62) cs), c # cs) \<in> measure length" by simp
qed simp_all

text \<open>
  The generation backend. The client either has a \<open>complete\<close> method, whose response
  has a \<open>text\<close> attribute or is turned into a string by \<open>str\<close>, or it is called through
  \<open>chat\<close>. A call returns, or raises an \<open>Exception\<close>: \<open>Inl msg\<close> is an exception whose
  \<open>str\<close> is \<open>msg\<close>.
\<close>

datatype llm_response = TextResponse pystr | OtherResponse pystr

datatype llm_client =
    CompleteLLM "pystr \<Rightarrow> pystr + llm_response"
  | ChatLLM "message list \<Rightarrow> pystr + pystr"

definition error_prefix :: pystr where
  "error_prefix = [0x751F, 0x6210, 0x56DE, 0x7B54, 0x65F6, 0x51FA, 0x9519] @ py '': ''"

definition history_line :: "message \<Rightarrow> pystr" where
  "history_line msg =
     py ''**'' @ (if is_user msg then [0x7528, 0x6237] else [0x52A9, 0x624B]) @ py ''**: ''
       @ strip_tags (take 300 (content_of msg)) @ [10, 10]"

definition history_text :: "message list option \<Rightarrow> pystr" where
  "history_text history =
     (case history of
        None \<Rightarrow> []
      | Some h \<Rightarrow>
          if h = [] then []
          else [10] @ py ''## '' @ [0x1F4DC] @ py '' '' @ [0x5BF9, 0x8BDD, 0x5386, 0x53F2, 10]
                 @ concat (map history_line (last_n 6 h)))"

text \<open>
  \<open>_generate_answer\<close>. The fixed instruction text of the prompt is the parameter
  \<open>template\<close>, applied to the history text, the context and the question. The
  \<open>vector_results\<close> argument is not used by the source. \<open>llm_call\<close> is the body of
  the \<open>try\<close> block, \<open>generate_answer\<close> the block with its \<open>except Exception\<close>.
\<close>

definition llm_call :: "llm_client \<Rightarrow> pystr \<Rightarrow> pystr + pystr" where
  "llm_call llm prompt =
     (case llm of
        CompleteLLM complete \<Rightarrow>
          (case complete prompt of
             Inl e \<Rightarrow> Inl e
           | Inr (TextResponse t) \<Rightarrow> Inr t
           | Inr (OtherResponse s) \<Rightarrow> Inr s)
      | ChatLLM chat \<Rightarrow> chat [\<lparr>role = Some (py ''user''), content = Some prompt\<rparr>])"

definition generate_answer ::
  "(pystr \<Rightarrow> pystr \<Rightarrow> pystr \<Rightarrow> pystr) \<Rightarrow> llm_client \<Rightarrow> pystr \<Rightarrow> pystr \<Rightarrow> (TextChunk \<times> 's) list
     \<Rightarrow> message list option \<Rightarrow> pystr" where
  "generate_answer template llm question context vector_results history =
     (let prompt = template (history_text history) context question
      in case llm_call llm prompt of
           Inr response \<Rightarrow> response
         | Inl e \<Rightarrow> error_prefix @ e)"

record 'v HybridQueryEngine =
  vector_store :: "'v VectorStore"
  engine_graph :: "KnowledgeGraph option"
  llm :: llm_client

record 's query_result =
  answer :: pystr
  citations :: "'s citation list"
  graph_entities :: "matched_entity list"

text \<open>
  \<open>HybridQueryEngine.query\<close>. It first prints the question through
  \<open>rich.console.Console.print\<close>, with the question inside the markup text
  \<open>question_line\<close>; Rich raises \<open>MarkupError\<close> on a text in which a closing tag
  matches no open tag (a question that holds \<open>[/b]\<close>, say). Whether Rich renders a text
  is the parameter \<open>renders\<close>. The other texts that the method prints are literals of
  balanced markup, with at most a number inside. Neither that exception nor one of the
  vector search is caught.
\<close>

definition question_line :: "pystr \<Rightarrow> pystr" where
  "question_line question =
     [10] @ py ''[bold cyan]'' @ [0x95EE, 0x9898] @ py '':[/bold cyan] '' @ question"

definition query ::
  "(pystr \<Rightarrow> bool) \<Rightarrow> ('s::linorder list \<Rightarrow> nat list) \<Rightarrow> (pystr \<Rightarrow> 'v \<Rightarrow> 's) \<Rightarrow> 's \<Rightarrow> ('s \<Rightarrow> 's)
     \<Rightarrow> (pystr \<Rightarrow> pystr \<Rightarrow> pystr \<Rightarrow> pystr)
     \<Rightarrow> 'v HybridQueryEngine \<Rightarrow> pystr \<Rightarrow> int \<Rightarrow> message list option
     \<Rightarrow> py_error + 's query_result" where
  "query renders asort cosine threshold round3 template eng question top_k history =
     (if \<not> renders (question_line question) then Inl MarkupError
      else (let search_query = build_search_query question history
            in case search asort cosine (vector_store eng) search_query top_k of
                 Inl e \<Rightarrow> Inl e
               | Inr vector_results \<Rightarrow>
                   (let graph_context = get_graph_context (engine_graph eng) question;
                        context = build_context threshold vector_results graph_context;
                        ans = generate_answer template (llm eng) question context
                                vector_results history;
                        cits = extract_citations threshold round3 vector_results
                    in Inr \<lparr>answer = ans, citations = cits,
                            graph_entities =
                              get_matched_entities (engine_graph eng) question\<rparr>)))"

section \<open>Concrete inputs\<close>

text \<open>A store of two chunks whose rows score the same, and one of three chunks.\<close>

definition chunk_a :: TextChunk where
  "chunk_a = \<lparr>chunk_text = py ''first'', chunk_chapter = py ''ch'', chunk_index = 0\<rparr>"

definition chunk_b :: TextChunk where
  "chunk_b = \<lparr>chunk_text = py ''second'', chunk_chapter = py ''ch'', chunk_index = 1\<rparr>"

definition chunk_c :: TextChunk where
  "chunk_c = \<lparr>chunk_text = py ''third'', chunk_chapter = py ''ch'', chunk_index = 2\<rparr>"

definition two_chunks :: "int VectorStore" where
  "two_chunks = \<lparr>chunks = [chunk_a, chunk_b], embeddings = Some [7, 7]\<rparr>"

definition three_chunks :: "int VectorStore" where
  "three_chunks = \<lparr>chunks = [chunk_a, chunk_b, chunk_c], embeddings = Some [100, 0, 99]\<rparr>"

text \<open>
  The similarity of a row that is its own score; and one function that meets
  \<open>is_argsort\<close>, the stable sort of the indices, for the concrete runs.
\<close>

definition stable_argsort :: "'s::linorder list \<Rightarrow> nat list" where
  "stable_argsort xs = sort_key (\<lambda>i. xs ! i) [0..<length xs]"

definition row_score :: "pystr \<Rightarrow> int \<Rightarrow> int" where
  "row_score q row = row"

text \<open>
  What the claim about ties asks of a result list: of two results with the same score,
  the one with the lower sequence index comes first.
\<close>

definition ties_lowest_index_first :: "(TextChunk \<times> 's) list \<Rightarrow> bool" where
  "ties_lowest_index_first results =
     (\<forall>j < length results. \<forall>i < j.
        snd (results ! i) = snd (results ! j)
          \<longrightarrow> chunk_index (fst (results ! i)) < chunk_index (fst (results ! j)))"

text \<open>
  An empty store; a directory whose matrix has two rows for one chunk; a directory
  without the matrix file. \<open>artifacts_consistent\<close> is the consistency that the claim
  about \<open>load\<close> speaks of.
\<close>

definition mismatched_store :: "int VectorStore" where
  "mismatched_store = \<lparr>chunks = [chunk_a], embeddings = Some [1, 2]\<rparr>"

definition empty_store :: "int VectorStore" where
  "empty_store = \<lparr>chunks = [], embeddings = None\<rparr>"

definition mismatched_dir :: "int index_dir" where
  "mismatched_dir = \<lparr>chunks_json = Stored [chunk_a], embeddings_npy = Stored [1, 2]\<rparr>"

definition no_matrix_dir :: "int index_dir" where
  "no_matrix_dir = \<lparr>chunks_json = Stored [chunk_a], embeddings_npy = Absent\<rparr>"

definition artifacts_consistent :: "'v index_dir \<Rightarrow> bool" where
  "artifacts_consistent dir =
     (case chunks_json dir of
        Stored cs \<Rightarrow> (case embeddings_npy dir of Stored m \<Rightarrow> length m = length cs | _ \<Rightarrow> False)
      | _ \<Rightarrow> False)"

text \<open>
  The invariant that the claim about the graph speaks of: the endpoints of every stored
  relationship and of every edge of the graph are keys of the entity dict.
  \<open>endpoints_are_nodes\<close> asks only that they are nodes of the graph, and
  \<open>ops_guarded\<close> says of a sequence of operations that each relationship is added when
  both its endpoints are entities.
\<close>

definition is_entity :: "KnowledgeGraph \<Rightarrow> pystr \<Rightarrow> bool" where
  "is_entity kg n = (n \<in> set (dict_keys (entities kg)))"

definition entities_closed :: "KnowledgeGraph \<Rightarrow> bool" where
  "entities_closed kg =
     ((\<forall>r \<in> set (relationships kg). is_entity kg (source r) \<and> is_entity kg (target r))
      \<and> (\<forall>e \<in> set (dict_keys (edges (graph kg))). is_entity kg (fst e) \<and> is_entity kg (snd e)))"

definition endpoints_are_nodes :: "KnowledgeGraph \<Rightarrow> bool" where
  "endpoints_are_nodes kg =
     ((\<forall>r \<in> set (relationships kg).
         has_node (graph kg) (source r) \<and> has_node (graph kg) (target r))
      \<and> (\<forall>e \<in> set (dict_keys (edges (graph kg))).
            has_node (graph kg) (fst e) \<and> has_node (graph kg) (snd e)))"

fun ops_guarded :: "KnowledgeGraph \<Rightarrow> graph_op list \<Rightarrow> bool" where
  "ops_guarded kg [] = True"
| "ops_guarded kg (AddEntity e # ops) = ops_guarded (add_entity e kg) ops"
| "ops_guarded kg (AddRelationship r # ops) =
     (is_entity kg (source r) \<and> is_entity kg (target r)
      \<and> ops_guarded (add_relationship r kg) ops)"

text \<open>The graph of the entities X and Y with the one relationship from X to Y.\<close>

definition entity_x :: Entity where
  "entity_x = \<lparr>name = py ''X'', entity_type = CONCEPT, description = py ''x'',
               source_chapter = []\<rparr>"

definition entity_y :: Entity where
  "entity_y = \<lparr>name = py ''Y'', entity_type = CONCEPT, description = py ''y'',
               source_chapter = []\<rparr>"

definition rel_xy :: Relationship where
  "rel_xy = \<lparr>source = py ''X'', target = py ''Y'', relation_type = LEADS_TO,
             rel_description = [], source_text = []\<rparr>"

definition kg_xy :: KnowledgeGraph where
  "kg_xy = apply_ops empty_KnowledgeGraph
             [AddEntity entity_x, AddEntity entity_y, AddRelationship rel_xy]"

text \<open>A history of three user turns.\<close>

definition user_msg :: "pystr \<Rightarrow> message" where
  "user_msg c = \<lparr>role = Some (py ''user''), content = Some c\<rparr>"

definition three_user_turns :: "message list" where
  "three_user_turns = [user_msg (py ''a''), user_msg (py ''b''), user_msg (py ''c'')]"

text \<open>
  A backend whose \<open>complete\<close> always raises, and an engine around it; a renderer that
  fails on a text with the closing tag \<open>[/b]\<close>, which the question line never opens.
\<close>

definition rejects_stray_tag :: "pystr \<Rightarrow> bool" where
  "rejects_stray_tag t = (\<not> str_contains t (py ''[/b]''))"

definition failing_llm :: llm_client where
  "failing_llm = CompleteLLM (\<lambda>prompt. Inl (py ''timeout''))"

definition plain_template :: "pystr \<Rightarrow> pystr \<Rightarrow> pystr \<Rightarrow> pystr" where
  "plain_template h c q = h @ c @ q"

definition failing_engine :: "int HybridQueryEngine" where
  "failing_engine = \<lparr>vector_store = three_chunks, engine_graph = None, llm = failing_llm\<rparr>"

text \<open>A chunk with its sequence index moved up by \<open>n\<close>.\<close>

definition reindex :: "nat \<Rightarrow> TextChunk \<Rightarrow> TextChunk" where
  "reindex n c = c\<lparr>chunk_index := chunk_index c + int n\<rparr>"

text \<open>
  Simple paths, for the statement about \<open>find_paths\<close>: a walk follows edges of the
  graph, and a simple path from \<open>s\<close> to \<open>t\<close> is a non-empty walk without repeated nodes
  that starts at \<open>s\<close> and ends at \<open>t\<close>.
\<close>

fun is_walk :: "DiGraph \<Rightarrow> pystr list \<Rightarrow> bool" where
  "is_walk g [] = True"
| "is_walk g [v] = True"
| "is_walk g (u # v # rest) = ((u, v) \<in> set (dict_keys (edges g)) \<and> is_walk g (v # rest))"

definition simple_path :: "DiGraph \<Rightarrow> pystr \<Rightarrow> pystr \<Rightarrow> pystr list \<Rightarrow> bool" where
  "simple_path g s t p = (p \<noteq> [] \<and> hd p = s \<and> last p = t \<and> distinct p \<and> is_walk g p)"

section \<open>The entity matcher\<close>

lemma startswith_prefix: "startswith xs needle = prefix needle xs"
  by (induction xs needle rule: startswith.induct) auto

lemma str_contains_sublist: "str_contains xs needle = sublist needle xs"
  by (induction xs) (auto simp: startswith_prefix sublist_Cons_right)

lemma partial_match_find:
  "partial_match lower ql names =
     find (\<lambda>nm. sublist ql (lower nm) \<or> sublist (lower nm) ql) names"
  by (induction names) (auto simp: str_contains_sublist)

text \<open>
  C7. The matcher returns the candidate itself when it is a registered name; otherwise the
  first registered name, in registration order, whose lower-cased form contains the
  lower-cased candidate or is contained in it; and \<open>None\<close> when there is no such name.
\<close>

theorem fuzzy_match_entity_spec:
  "fuzzy_match_entity lower names q =
     (if q \<in> set names then Some q
      else find (\<lambda>nm. sublist (lower q) (lower nm) \<or> sublist (lower nm) (lower q))
             names)"
proof (cases "q \<in> set names")
  case True
  then show ?thesis by (simp add: fuzzy_match_entity_def)
next
  case False
  then show ?thesis by (simp add: fuzzy_match_entity_def partial_match_find Let_def)
qed

text \<open>
  The scenario of the specification: with the names U+5B89 U+5168 U+8FB9 U+9645 and
  U+80FD U+529B U+5708 registered, the candidate U+80FD U+529B resolves to the second
  name and the candidate U+4E0D U+5B58 U+5728 to nothing.
\<close>

theorem fuzzy_match_entity_spec_witness:
  "fuzzy_match_entity ascii_lower [[0x5B89, 0x5168, 0x8FB9, 0x9645], [0x80FD, 0x529B, 0x5708]]
       [0x80FD, 0x529B] = Some [0x80FD, 0x529B, 0x5708]
   \<and> fuzzy_match_entity ascii_lower [[0x5B89, 0x5168, 0x8FB9, 0x9645], [0x80FD, 0x529B, 0x5708]]
       [0x4E0D, 0x5B58, 0x5728] = None
   \<and> fuzzy_match_entity ascii_lower [py ''Moat'', py ''Margin''] (py ''MARGIN of safety'')
       = Some (py ''Margin'')"
  by (simp add: fuzzy_match_entity_spec ascii_lower_def sublist_code prefix_code)

section \<open>Vector search\<close>

lemma stable_argsort_is_argsort: "is_argsort xs (stable_argsort xs)"
  unfolding is_argsort_def stable_argsort_def
proof (intro conjI)
  show "distinct (sort_key ((!) xs) [0..<length xs])" by simp
  show "set (sort_key ((!) xs) [0..<length xs]) = {0..<length xs}" by simp
  show "sorted (map ((!) xs) (sort_key ((!) xs) [0..<length xs]))"
    by (rule sorted_sort_key)
qed

lemma collect_results_ok:
  "\<forall>i \<in> set idxs. i < length cs \<Longrightarrow>
   collect_results cs sims idxs = Inr (map (\<lambda>i. (cs ! i, sims ! i)) idxs)"
  by (induction idxs) auto

lemma collect_results_Inr:
  "collect_results cs sims idxs = Inr results \<Longrightarrow> results = map (\<lambda>i. (cs ! i, sims ! i)) idxs"
proof (induction idxs arbitrary: results)
  case Nil
  then show ?case by simp
next
  case (Cons idx rest)
  from Cons.prems have inb: "idx < length cs" by (simp split: if_splits)
  from Cons.prems inb obtain rs where rs: "collect_results cs sims rest = Inr rs"
    and res: "results = (cs ! idx, sims ! idx) # rs"
    by (auto split: sum.splits)
  from Cons.IH[OF rs] res show ?case by simp
qed

lemma ranked_scores_descend:
  assumes "is_argsort sims order"
  shows "sorted_wrt (\<ge>) (map (\<lambda>i. sims ! i) (take k (rev order)))"
proof -
  from assms have "sorted (map (\<lambda>i. sims ! i) order)" by (simp add: is_argsort_def)
  then have "sorted_wrt (\<ge>) (rev (map (\<lambda>i. sims ! i) order))"
    by (simp only: sorted_wrt_rev)
  then have "sorted_wrt (\<ge>) (map (\<lambda>i. sims ! i) (rev order))"
    by (simp only: rev_map)
  then have "sorted_wrt (\<ge>) (take k (map (\<lambda>i. sims ! i) (rev order)))"
    by (rule sorted_wrt_take)
  then show ?thesis by (simp add: take_map)
qed

lemma stable_argsort_12: "stable_argsort [1::int, 2] = [0, 1]"
  by (simp add: stable_argsort_def upt_rec)

text \<open>
  C1, as stated, fails: a store with one chunk and a matrix of two rows (as \<open>load\<close>
  leaves it on such a directory) has a non-empty chunk list and a matrix, and the search
  raises \<open>IndexError\<close> on it.
\<close>

theorem search_mismatched_counterexample:
  "chunks mismatched_store \<noteq> [] \<and> embeddings mismatched_store = Some [1, 2]
   \<and> is_argsort [1::int, 2] (stable_argsort [1::int, 2])
   \<and> search stable_argsort row_score mismatched_store (py ''q'') 2 = Inl IndexError"
proof -
  have "search stable_argsort row_score mismatched_store (py ''q'') 2 = Inl IndexError"
    by (simp add: search_def mismatched_store_def row_score_def stable_argsort_12 slice_to_def)
  then show ?thesis
    using stable_argsort_is_argsort[of "[1::int, 2]"] by (simp add: mismatched_store_def)
qed

text \<open>
  C1, amended. For \<open>top_k \<ge> 0\<close> and whatever ascending order \<open>np.argsort\<close> returns:
  on a store whose matrix has no more rows than there are chunks (one row per chunk
  after a build) the search returns, and whenever it returns its result is a list of at
  most \<open>top_k\<close> pairs whose scores do not increase.
\<close>

theorem search_at_most_top_k_sorted:
  assumes "embeddings st = Some rows" and "0 \<le> top_k"
    and "is_argsort (map (cosine q) rows) (asort (map (cosine q) rows))"
  shows "(length rows \<le> length (chunks st)
            \<longrightarrow> (\<exists>results. search asort cosine st q top_k = Inr results))
         \<and> (\<forall>results. search asort cosine st q top_k = Inr results
               \<longrightarrow> length results \<le> nat top_k \<and> sorted_wrt (\<ge>) (map snd results))"
proof (cases "length (chunks st) = 0")
  case True
  with assms show ?thesis by (simp add: search_def)
next
  case False
  let ?sims = "map (cosine q) rows"
  let ?idxs = "take (nat top_k) (rev (asort ?sims))"
  have sl: "slice_to top_k (rev (asort ?sims)) = ?idxs"
    using assms(2) by (simp add: slice_to_def)
  have run: "search asort cosine st q top_k = collect_results (chunks st) ?sims ?idxs"
    using False assms(1) sl by (simp add: search_def Let_def)
  have returns: "\<exists>results. search asort cosine st q top_k = Inr results"
    if le: "length rows \<le> length (chunks st)"
  proof -
    from assms(3) have "set (asort ?sims) = {0..<length rows}" by (simp add: is_argsort_def)
    moreover have "set ?idxs \<subseteq> set (rev (asort ?sims))" by (rule set_take_subset)
    ultimately have "\<forall>i \<in> set ?idxs. i < length (chunks st)" using le by auto
    from collect_results_ok[OF this, of ?sims] run show ?thesis by simp
  qed
  have props: "length results \<le> nat top_k \<and> sorted_wrt (\<ge>) (map snd results)"
    if r: "search asort cosine st q top_k = Inr results" for results
  proof -
    from r run have "results = map (\<lambda>i. (chunks st ! i, ?sims ! i)) ?idxs"
      by (simp add: collect_results_Inr)
    then have "map snd results = map (\<lambda>i. ?sims ! i) ?idxs" "length results = length ?idxs"
      by (simp_all add: comp_def)
    then show ?thesis using ranked_scores_descend[OF assms(3), of "nat top_k"] by simp
  qed
  show ?thesis using returns props by blast
qed

lemma stable_argsort_three: "stable_argsort [100::int, 0, 99] = [1, 2, 0]"
  by (simp add: stable_argsort_def upt_rec)

lemma search_three:
  "search stable_argsort row_score three_chunks (py ''q'') 2 = Inr [(chunk_a, 100), (chunk_c, 99)]"
  by (simp add: search_def three_chunks_def row_score_def stable_argsort_three slice_to_def)

theorem search_at_most_top_k_sorted_witness:
  "embeddings three_chunks = Some [100, 0, 99]
   \<and> (0::int) \<le> 2
   \<and> is_argsort (map (row_score (py ''q'')) [100, 0, 99])
        (stable_argsort (map (row_score (py ''q'')) [100, 0, 99]))
   \<and> length [100::int, 0, 99] \<le> length (chunks three_chunks)
   \<and> search stable_argsort row_score three_chunks (py ''q'') 2
        = Inr [(chunk_a, 100), (chunk_c, 99)]
   \<and> length [(chunk_a, 100::int), (chunk_c, 99)] \<le> nat 2
   \<and> sorted_wrt (\<ge>) (map snd [(chunk_a, 100::int), (chunk_c, 99)])"
proof -
  have h1: "embeddings three_chunks = Some [100, 0, 99]" by (simp add: three_chunks_def)
  have h2: "(0::int) \<le> 2" by simp
  have h3: "is_argsort (map (row_score (py ''q'')) [100, 0, 99])
              (stable_argsort (map (row_score (py ''q'')) [100, 0, 99]))"
    by (rule stable_argsort_is_argsort)
  have h4: "length [100::int, 0, 99] \<le> length (chunks three_chunks)"
    by (simp add: three_chunks_def)
  from search_at_most_top_k_sorted[where asort = stable_argsort and cosine = row_score,
      OF h1 h2 h3] search_three
  have "length [(chunk_a, 100::int), (chunk_c, 99)] \<le> nat 2
        \<and> sorted_wrt (\<ge>) (map snd [(chunk_a, 100::int), (chunk_c, 99)])"
    by blast
  with h1 h2 h3 h4 search_three show ?thesis by blast
qed

section \<open>Ties in the ranking\<close>

lemma stable_argsort_two_equal: "stable_argsort [7::int, 7] = [0, 1]"
  by (simp add: stable_argsort_def upt_rec)

lemma search_two_equal:
  "search stable_argsort row_score two_chunks (py ''q'') 2 = Inr [(chunk_b, 7), (chunk_a, 7)]"
  by (simp add: search_def two_chunks_def row_score_def stable_argsort_two_equal slice_to_def)

text \<open>
  C4, as stated, fails: on two chunks with the same score, with the two indices left in
  index order by the sort, the search returns the chunk of index 1 before the chunk of
  index 0.
\<close>

theorem search_ties_counterexample:
  "is_argsort [7::int, 7] (stable_argsort [7::int, 7])
   \<and> search stable_argsort row_score two_chunks (py ''q'') 2 = Inr [(chunk_b, 7), (chunk_a, 7)]
   \<and> \<not> ties_lowest_index_first [(chunk_b, 7::int), (chunk_a, 7)]"
proof -
  have "\<not> ties_lowest_index_first [(chunk_b, 7::int), (chunk_a, 7)]"
    unfolding ties_lowest_index_first_def
    by (simp add: less_Suc_eq all_conj_distrib chunk_a_def chunk_b_def)
  then show ?thesis
    using search_two_equal stable_argsort_is_argsort[of "[7::int, 7]"] by simp
qed

text \<open>Either order of two tied indices is an ascending argsort.\<close>

lemma two_orders_of_a_tie: "is_argsort [7::int, 7] [0, 1] \<and> is_argsort [7::int, 7] [1, 0]"
  by (auto simp: is_argsort_def)

text \<open>
  C4, amended. The search has no tie-break of its own: its ranking is the order that
  \<open>np.argsort\<close> returns, reversed and cut to \<open>top_k\<close>. The result at position \<open>i\<close> is
  the chunk whose index the sort put at position \<open>n - 1 - i\<close>, so of two chunks with
  the same score the one that the sort put later comes first, whatever their indices.
\<close>

theorem search_ties_follow_argsort:
  assumes "embeddings st = Some rows" "length rows \<le> length (chunks st)" "chunks st \<noteq> []"
    and "0 \<le> top_k"
    and "sims = map (cosine q) rows"
    and "is_argsort sims (asort sims)"
    and "idxs = take (nat top_k) (rev (asort sims))"
  shows "search asort cosine st q top_k = Inr (map (\<lambda>i. (chunks st ! i, sims ! i)) idxs)
         \<and> (\<forall>j < length idxs. \<forall>i < j.
               idxs ! i = asort sims ! (length rows - Suc i)
               \<and> idxs ! j = asort sims ! (length rows - Suc j)
               \<and> length rows - Suc j < length rows - Suc i)"
proof -
  from assms(6) have set_a: "set (asort sims) = {0..<length sims}" and dist: "distinct (asort sims)"
    by (simp_all add: is_argsort_def)
  have "card (set (asort sims)) = length (asort sims)" using dist by (rule distinct_card)
  then have len: "length (asort sims) = length rows" using set_a assms(5) by simp
  have sl: "slice_to top_k (rev (asort sims)) = idxs"
    using assms(4,7) by (simp add: slice_to_def)
  have "set idxs \<subseteq> set (rev (asort sims))" unfolding assms(7) by (rule set_take_subset)
  then have inb: "\<forall>i \<in> set idxs. i < length (chunks st)"
    using set_a assms(2,5) by auto
  have res: "search asort cosine st q top_k = Inr (map (\<lambda>i. (chunks st ! i, sims ! i)) idxs)"
    using assms(1,3) collect_results_ok[OF inb, of sims] sl assms(5)
    by (simp add: search_def Let_def)
  have pos: "idxs ! i = asort sims ! (length rows - Suc i)
             \<and> idxs ! j = asort sims ! (length rows - Suc j)
             \<and> length rows - Suc j < length rows - Suc i"
    if "j < length idxs" "i < j" for i j
  proof -
    have jn: "j < length rows" using that(1) assms(7) len by simp
    have in': "i < length rows" using that(2) jn by simp
    have "idxs ! i = asort sims ! (length rows - Suc i)"
      "idxs ! j = asort sims ! (length rows - Suc j)"
      using that jn in' len unfolding assms(7) by (simp_all add: rev_nth)
    moreover have "length rows - Suc j < length rows - Suc i" using that(2) jn by simp
    ultimately show ?thesis by simp
  qed
  show ?thesis using res pos by blast
qed

theorem search_ties_follow_argsort_witness:
  "search stable_argsort row_score two_chunks (py ''q'') 2
     = Inr (map (\<lambda>i. (chunks two_chunks ! i, [7::int, 7] ! i)) [1, 0])
   \<and> [1::nat, 0] ! 0 = stable_argsort [7::int, 7] ! (length [7::int, 7] - Suc 0)
   \<and> [1::nat, 0] ! 1 = stable_argsort [7::int, 7] ! (length [7::int, 7] - Suc 1)"
proof -
  have h1: "embeddings two_chunks = Some [7, 7]" by (simp add: two_chunks_def)
  have h2: "length [7::int, 7] \<le> length (chunks two_chunks)" by (simp add: two_chunks_def)
  have h3: "chunks two_chunks \<noteq> []" by (simp add: two_chunks_def)
  have h4: "(0::int) \<le> 2" by simp
  have h5: "[7::int, 7] = map (row_score (py ''q'')) [7, 7]" by (simp add: row_score_def)
  have h6: "is_argsort [7::int, 7] (stable_argsort [7::int, 7])"
    by (rule stable_argsort_is_argsort)
  have h7: "[1::nat, 0] = take (nat 2) (rev (stable_argsort [7::int, 7]))"
    by (simp add: stable_argsort_two_equal)
  note t = search_ties_follow_argsort[where cosine = row_score and q = "py ''q''"
      and asort = stable_argsort, OF h1 h2 h3 h4 h5 h6 h7]
  from t have a: "search stable_argsort row_score two_chunks (py ''q'') 2
     = Inr (map (\<lambda>i. (chunks two_chunks ! i, [7::int, 7] ! i)) [1, 0])"
    by (rule conjunct1)
  from t have b: "\<forall>j < length [1::nat, 0]. \<forall>i < j.
               [1::nat, 0] ! i = stable_argsort [7::int, 7] ! (length [7::int, 7] - Suc i)
               \<and> [1::nat, 0] ! j = stable_argsort [7::int, 7] ! (length [7::int, 7] - Suc j)
               \<and> length [7::int, 7] - Suc j < length [7::int, 7] - Suc i"
    by (rule conjunct2)
  have "(1::nat) < length [1::nat, 0]" "(0::nat) < 1" by simp_all
  with b have "[1::nat, 0] ! 0 = stable_argsort [7::int, 7] ! (length [7::int, 7] - Suc 0)
     \<and> [1::nat, 0] ! 1 = stable_argsort [7::int, 7] ! (length [7::int, 7] - Suc 1)"
    by blast
  with a show ?thesis by blast
qed

section \<open>Loading a persisted index\<close>

text \<open>
  C3, as stated, fails: \<open>load\<close> returns true on a directory whose matrix has two rows
  for a single chunk, and the store then holds both.
\<close>

theorem load_accepts_mismatch_counterexample:
  "load empty_store mismatched_dir
     = (Inr True, \<lparr>chunks = [chunk_a], embeddings = Some [1, 2]\<rparr>)
   \<and> \<not> artifacts_consistent mismatched_dir"
  by (simp add: load_def empty_store_def mismatched_dir_def artifacts_consistent_def)

text \<open>
  C3, amended. \<open>load\<close> returns true exactly when both files are present and readable,
  whatever their sizes, and the store then holds the stored chunk list and matrix; when
  either file is absent it returns false and the store is unchanged.
\<close>

theorem load_true_iff_both_stored:
  "(fst (load st dir) = Inr True
      \<longleftrightarrow> (\<exists>cs m. chunks_json dir = Stored cs \<and> embeddings_npy dir = Stored m))
   \<and> (\<forall>cs m. chunks_json dir = Stored cs \<and> embeddings_npy dir = Stored m
         \<longrightarrow> load st dir = (Inr True, st\<lparr>chunks := cs, embeddings := Some m\<rparr>))
   \<and> (chunks_json dir = Absent \<or> embeddings_npy dir = Absent \<longrightarrow> load st dir = (Inr False, st))"
proof (intro conjI allI impI)
  show "fst (load st dir) = Inr True
          \<longleftrightarrow> (\<exists>cs m. chunks_json dir = Stored cs \<and> embeddings_npy dir = Stored m)"
    by (cases "chunks_json dir"; cases "embeddings_npy dir") (simp_all add: load_def)
next
  fix cs m
  assume "chunks_json dir = Stored cs \<and> embeddings_npy dir = Stored m"
  then show "load st dir = (Inr True, st\<lparr>chunks := cs, embeddings := Some m\<rparr>)"
    by (simp add: load_def)
next
  assume "chunks_json dir = Absent \<or> embeddings_npy dir = Absent"
  then show "load st dir = (Inr False, st)" by (auto simp: load_def)
qed

theorem load_true_iff_both_stored_witness:
  "fst (load empty_store mismatched_dir) = Inr True
   \<and> load empty_store no_matrix_dir = (Inr False, empty_store)"
proof -
  have "\<exists>cs m. chunks_json mismatched_dir = Stored cs \<and> embeddings_npy mismatched_dir = Stored m"
    by (simp add: mismatched_dir_def)
  moreover have "chunks_json no_matrix_dir = Absent \<or> embeddings_npy no_matrix_dir = Absent"
    by (simp add: no_matrix_dir_def)
  ultimately show ?thesis
    using load_true_iff_both_stored[of empty_store mismatched_dir]
      load_true_iff_both_stored[of empty_store no_matrix_dir]
    by blast
qed

section \<open>The knowledge graph\<close>

lemma dict_keys_dict_set:
  "dict_keys (dict_set k v d) = (if k \<in> set (dict_keys d) then dict_keys d else dict_keys d @ [k])"
proof (induction d)
  case Nil
  then show ?case by (simp add: dict_keys_def)
next
  case (Cons p d)
  obtain k' v' where p: "p = (k', v')" by (cases p)
  show ?case using Cons.IH by (simp add: p dict_keys_def)
qed

lemma set_dict_keys_dict_set: "set (dict_keys (dict_set k v d)) = insert k (set (dict_keys d))"
  by (simp add: dict_keys_dict_set insert_absorb)

lemma add_entity_closed: "entities_closed kg \<Longrightarrow> entities_closed (add_entity e kg)"
  by (auto simp: entities_closed_def is_entity_def add_entity_def add_node_def
      set_dict_keys_dict_set)

lemma add_relationship_closed:
  "entities_closed kg \<Longrightarrow> is_entity kg (source r) \<Longrightarrow> is_entity kg (target r)
     \<Longrightarrow> entities_closed (add_relationship r kg)"
  by (auto simp: entities_closed_def is_entity_def add_relationship_def add_edge_def Let_def
      ensure_node_def set_dict_keys_dict_set)

lemma apply_ops_closed:
  "entities_closed kg \<Longrightarrow> ops_guarded kg ops \<Longrightarrow> entities_closed (apply_ops kg ops)"
proof (induction ops arbitrary: kg)
  case Nil
  then show ?case by (simp add: apply_ops_def)
next
  case (Cons op ops)
  show ?case
  proof (cases op)
    case (AddEntity e)
    with Cons.prems have "entities_closed (add_entity e kg)" "ops_guarded (add_entity e kg) ops"
      by (simp_all add: add_entity_closed)
    then have "entities_closed (apply_ops (add_entity e kg) ops)" by (rule Cons.IH)
    with AddEntity show ?thesis by (simp add: apply_ops_def)
  next
    case (AddRelationship r)
    with Cons.prems have "entities_closed (add_relationship r kg)"
      "ops_guarded (add_relationship r kg) ops"
      by (simp_all add: add_relationship_closed)
    then have "entities_closed (apply_ops (add_relationship r kg) ops)" by (rule Cons.IH)
    with AddRelationship show ?thesis by (simp add: apply_ops_def)
  qed
qed

lemma has_node_ensure_node: "has_node (ensure_node n g) m = (m = n \<or> has_node g m)"
  by (auto simp: ensure_node_def has_node_def dict_keys_def)

lemma edges_ensure_node: "edges (ensure_node n g) = edges g"
  by (simp add: ensure_node_def)

lemma add_entity_nodes: "endpoints_are_nodes kg \<Longrightarrow> endpoints_are_nodes (add_entity e kg)"
  by (auto simp: endpoints_are_nodes_def add_entity_def add_node_def has_node_def
      set_dict_keys_dict_set)

lemma has_node_edges_update: "has_node (g\<lparr>edges := es\<rparr>) m = has_node g m"
  by (simp add: has_node_def)

lemma add_relationship_nodes:
  "endpoints_are_nodes kg \<Longrightarrow> endpoints_are_nodes (add_relationship r kg)"
  unfolding endpoints_are_nodes_def add_relationship_def add_edge_def Let_def
  by (auto simp: has_node_ensure_node has_node_edges_update edges_ensure_node
      set_dict_keys_dict_set)

lemma apply_ops_nodes: "endpoints_are_nodes kg \<Longrightarrow> endpoints_are_nodes (apply_ops kg ops)"
proof (induction ops arbitrary: kg)
  case Nil
  then show ?case by (simp add: apply_ops_def)
next
  case (Cons op ops)
  have "endpoints_are_nodes (apply_op kg op)"
    using Cons.prems by (cases op) (simp_all add: add_entity_nodes add_relationship_nodes)
  then have "endpoints_are_nodes (apply_ops (apply_op kg op) ops)" by (rule Cons.IH)
  then show ?case by (simp add: apply_ops_def)
qed

lemma empty_closed: "entities_closed empty_KnowledgeGraph"
  by (simp add: entities_closed_def empty_KnowledgeGraph_def empty_DiGraph_def dict_keys_def)

lemma empty_nodes: "endpoints_are_nodes empty_KnowledgeGraph"
  by (simp add: endpoints_are_nodes_def empty_KnowledgeGraph_def empty_DiGraph_def dict_keys_def)

text \<open>
  C5, as stated, fails: the empty graph satisfies the invariant, and one
  \<open>add_relationship\<close> between two names that are not entities breaks it.
\<close>

theorem entities_closed_counterexample:
  "entities_closed empty_KnowledgeGraph
   \<and> \<not> entities_closed (apply_ops empty_KnowledgeGraph [AddRelationship rel_xy])"
proof -
  have "\<not> entities_closed (apply_ops empty_KnowledgeGraph [AddRelationship rel_xy])"
    by (simp add: entities_closed_def is_entity_def apply_ops_def add_relationship_def
        empty_KnowledgeGraph_def dict_keys_def rel_xy_def)
  then show ?thesis using empty_closed by simp
qed

text \<open>
  C5, amended. The empty graph satisfies the invariant; every sequence of the two
  operations in which each relationship is added when both its endpoints are entities
  preserves it (\<open>add_relationship\<close> itself checks nothing); and after any sequence at
  all, the endpoints of every relationship are nodes of the graph.
\<close>

theorem guarded_ops_preserve_closure:
  "entities_closed empty_KnowledgeGraph
   \<and> (entities_closed kg \<and> ops_guarded kg ops \<longrightarrow> entities_closed (apply_ops kg ops))
   \<and> endpoints_are_nodes (apply_ops empty_KnowledgeGraph ops)"
proof (intro conjI impI)
  show "entities_closed empty_KnowledgeGraph" by (rule empty_closed)
next
  assume "entities_closed kg \<and> ops_guarded kg ops"
  then show "entities_closed (apply_ops kg ops)" by (simp add: apply_ops_closed)
next
  show "endpoints_are_nodes (apply_ops empty_KnowledgeGraph ops)"
    using empty_nodes by (rule apply_ops_nodes)
qed

theorem guarded_ops_preserve_closure_witness:
  "entities_closed empty_KnowledgeGraph
   \<and> ops_guarded empty_KnowledgeGraph
        [AddEntity entity_x, AddEntity entity_y, AddRelationship rel_xy]
   \<and> entities_closed kg_xy
   \<and> endpoints_are_nodes (apply_ops empty_KnowledgeGraph [AddRelationship rel_xy])"
proof -
  have g: "ops_guarded empty_KnowledgeGraph
             [AddEntity entity_x, AddEntity entity_y, AddRelationship rel_xy]"
    by (simp add: is_entity_def add_entity_def empty_KnowledgeGraph_def dict_keys_def
        entity_x_def entity_y_def rel_xy_def)
  show ?thesis
    using g
      guarded_ops_preserve_closure[of empty_KnowledgeGraph
        "[AddEntity entity_x, AddEntity entity_y, AddRelationship rel_xy]"]
      guarded_ops_preserve_closure[of empty_KnowledgeGraph "[AddRelationship rel_xy]"]
    by (simp add: kg_xy_def)
qed

lemma graph_kg_xy:
  "graph kg_xy =
     \<lparr>nodes = [(py ''X'', Some \<lparr>node_entity_type = entity_type_value CONCEPT,
                                 node_description = py ''x'', node_chapter = []\<rparr>),
               (py ''Y'', Some \<lparr>node_entity_type = entity_type_value CONCEPT,
                                 node_description = py ''y'', node_chapter = []\<rparr>)],
      edges = [((py ''X'', py ''Y''),
                \<lparr>edge_relation_type = relation_type_value LEADS_TO, edge_description = []\<rparr>)]\<rparr>"
  by (simp add: kg_xy_def apply_ops_def add_entity_def add_relationship_def
      empty_KnowledgeGraph_def empty_DiGraph_def add_node_def add_edge_def ensure_node_def
      has_node_def dict_keys_def entity_x_def entity_y_def rel_xy_def Let_def)

section \<open>Neighbours of an unknown name\<close>

text \<open>
  C9, as stated, fails: for a name that is not a node the result is the empty dict, which
  has no \<open>"in"\<close> list (and no \<open>"out"\<close> list) at all.
\<close>

theorem get_neighbors_unknown_counterexample:
  "\<not> has_node (graph kg_xy) (py ''Z'')
   \<and> get_neighbors kg_xy (py ''Z'') = []
   \<and> dict_get (get_neighbors kg_xy (py ''Z'')) (py ''in'') \<noteq> Some []"
  by (simp add: get_neighbors_def graph_kg_xy has_node_def dict_keys_def dict_get_def)

text \<open>
  C9, amended. For a name that is not a node of the graph, \<open>get_neighbors\<close> returns the
  empty dict, without raising: reading either key with \<open>.get\<close> gives nothing.
\<close>

theorem get_neighbors_unknown_empty_dict:
  assumes "\<not> has_node (graph kg) nm"
  shows "get_neighbors kg nm = []
         \<and> dict_get (get_neighbors kg nm) (py ''in'') = None
         \<and> dict_get (get_neighbors kg nm) (py ''out'') = None"
proof -
  from assms have "get_neighbors kg nm = []" by (simp add: get_neighbors_def)
  then show ?thesis by (simp add: dict_get_def)
qed

theorem get_neighbors_unknown_empty_dict_witness:
  "\<not> has_node (graph kg_xy) (py ''Z'')
   \<and> get_neighbors kg_xy (py ''Z'') = []
   \<and> dict_get (get_neighbors kg_xy (py ''Z'')) (py ''in'') = None
   \<and> dict_get (get_neighbors kg_xy (py ''Z'')) (py ''out'') = None"
proof -
  have h: "\<not> has_node (graph kg_xy) (py ''Z'')"
    by (simp add: graph_kg_xy has_node_def dict_keys_def)
  from get_neighbors_unknown_empty_dict[OF h] h show ?thesis by blast
qed

section \<open>Paths\<close>

lemma visit_numeral:
  "visit g targets (numeral k) path v =
     (if v \<in> set targets then [path @ [v]] else []) @
     (if \<not> set targets \<subseteq> set (path @ [v])
      then concat (map (visit g targets (pred_numeral k) (path @ [v]))
                    (filter (\<lambda>w. w \<notin> set (path @ [v])) (successors g v)))
      else [])"
  using visit.simps(2)[of g targets "pred_numeral k" path v] by (simp only: numeral_eq_Suc)

text \<open>
  C2 at a target that is not a node: in the graph of X and Y with the edge from X to Y,
  the name YZ is absent, and \<open>find_paths\<close> from X to YZ returns the path from X to Y.
\<close>

theorem find_paths_absent_target:
  "\<not> has_node (graph kg_xy) (py ''YZ'')
   \<and> find_paths kg_xy (py ''X'') (py ''YZ'') 4 = [[py ''X'', py ''Y'']]"
  by (simp add: find_paths_def all_simple_paths_def graph_kg_xy has_node_def dict_keys_def
      successors_def visit_numeral)

lemma find_paths_zero_absent_target:
  "find_paths kg_xy (py ''X'') (py ''XY'') 0 = [[py ''X'']]"
  by (simp add: find_paths_def all_simple_paths_def graph_kg_xy has_node_def dict_keys_def
      successors_def)

lemma find_paths_absent_source: "\<not> has_node (graph kg) src \<Longrightarrow> find_paths kg src tgt k = []"
  by (simp add: find_paths_def all_simple_paths_def)

text \<open>
  Where both endpoints are nodes of the graph, \<open>find_paths\<close> returns the simple paths
  from the source to the target of at most \<open>max_length\<close> edges, the one-node path
  included when source and target are the same node.
\<close>

lemma set_successors: "set (successors g v) = {w. (v, w) \<in> set (dict_keys (edges g))}"
  by (force simp: successors_def dict_keys_def)

lemma distinct_hd_last:
  assumes "distinct q" "q \<noteq> []" "hd q = last q"
  shows "q = [hd q]"
proof (cases q)
  case Nil
  with assms show ?thesis by simp
next
  case (Cons x xs)
  show ?thesis
  proof (cases xs)
    case Nil
    with Cons show ?thesis by simp
  next
    case (Cons y ys)
    with \<open>q = x # xs\<close> assms have "x = last xs" "x \<notin> set xs" "xs \<noteq> []" by auto
    then show ?thesis using last_in_set by metis
  qed
qed

lemma visit_single_target:
  "t \<notin> set path \<Longrightarrow> v \<notin> set path \<Longrightarrow>
   set (visit g [t] k path v) =
     {path @ q | q. q \<noteq> [] \<and> hd q = v \<and> last q = t \<and> distinct q \<and> set q \<inter> set path = {}
                    \<and> is_walk g q \<and> length q \<le> Suc k}"
  (is "_ \<Longrightarrow> _ \<Longrightarrow> _ = ?R k path v")
proof (induction k arbitrary: path v)
  case 0
  show ?case
  proof (cases "v = t")
    case True
    have "?R 0 path v = {path @ [t]}"
    proof (intro equalityI subsetI)
      fix p assume "p \<in> ?R 0 path v"
      then obtain q where q: "p = path @ q" "q \<noteq> []" "hd q = v" "length q \<le> Suc 0" by auto
      then have "q = [v]" by (cases q) auto
      with q True show "p \<in> {path @ [t]}" by simp
    next
      fix p assume "p \<in> {path @ [t]}"
      then show "p \<in> ?R 0 path v" using True 0 by (auto intro!: exI[of _ "[t]"])
    qed
    then show ?thesis using True by simp
  next
    case False
    have "?R 0 path v = {}"
    proof -
      { fix q assume q: "q \<noteq> []" "hd q = v" "last q = t" "length q \<le> Suc 0"
        then have "q = [v]" by (cases q) auto
        with q False have False by simp }
      then show ?thesis by blast
    qed
    then show ?thesis using False by simp
  qed
next
  case (Suc k)
  show ?case
  proof (cases "v = t")
    case True
    have "?R (Suc k) path v = {path @ [t]}"
    proof (intro equalityI subsetI)
      fix p assume "p \<in> ?R (Suc k) path v"
      then obtain q where q: "p = path @ q" "q \<noteq> []" "hd q = v" "last q = t" "distinct q" by auto
      then have "q = [hd q]" using True distinct_hd_last[of q] by simp
      with q True show "p \<in> {path @ [t]}" by simp
    next
      fix p assume "p \<in> {path @ [t]}"
      then show "p \<in> ?R (Suc k) path v" using True Suc.prems by (auto intro!: exI[of _ "[t]"])
    qed
    then show ?thesis using True by simp
  next
    case False
    let ?path' = "path @ [v]"
    let ?ws = "filter (\<lambda>w. w \<notin> set ?path') (successors g v)"
    have t': "t \<notin> set ?path'" using Suc.prems False by simp
    have vis: "visit g [t] (Suc k) path v = concat (map (visit g [t] k ?path') ?ws)"
      using False t' by simp
    have IH: "set (visit g [t] k ?path' w) = ?R k ?path' w" if "w \<in> set ?ws" for w
      using that t' by (intro Suc.IH) auto
    have "set (visit g [t] (Suc k) path v) = (\<Union>w \<in> set ?ws. ?R k ?path' w)"
      unfolding vis using IH by simp
    also have "\<dots> = ?R (Suc k) path v"
    proof (intro equalityI subsetI)
      fix p assume "p \<in> (\<Union>w \<in> set ?ws. ?R k ?path' w)"
      then obtain w q where w: "w \<in> set ?ws"
        and q: "p = ?path' @ q" "q \<noteq> []" "hd q = w" "last q = t" "distinct q"
               "set q \<inter> set ?path' = {}" "is_walk g q" "length q \<le> Suc k"
        by auto
      from w have edge: "(v, w) \<in> set (dict_keys (edges g))" by (simp add: set_successors)
      obtain q' where q': "q = w # q'" using q(2,3) by (cases q) auto
      have "p = path @ (v # q)" using q(1) by simp
      moreover have "v # q \<noteq> []" "hd (v # q) = v" by simp_all
      moreover have "last (v # q) = t" using q(2,4) by simp
      moreover have "distinct (v # q)" using q(5,6) by auto
      moreover have "set (v # q) \<inter> set path = {}" using q(6) Suc.prems(2) by auto
      moreover have "is_walk g (v # q)" using q(7) edge q' by simp
      moreover have "length (v # q) \<le> Suc (Suc k)" using q(8) by simp
      ultimately show "p \<in> ?R (Suc k) path v" by blast
    next
      fix p assume "p \<in> ?R (Suc k) path v"
      then obtain q where q: "p = path @ q" "q \<noteq> []" "hd q = v" "last q = t" "distinct q"
               "set q \<inter> set path = {}" "is_walk g q" "length q \<le> Suc (Suc k)"
        by auto
      obtain q1 where q1: "q = v # q1" using q(2,3) by (cases q) auto
      have "q1 \<noteq> []" using q(4) q1 False by auto
      then obtain w q2 where q2: "q1 = w # q2" by (cases q1) auto
      have edge: "(v, w) \<in> set (dict_keys (edges g))" and walk: "is_walk g q1"
        using q(7) q1 q2 by simp_all
      have "w \<notin> set ?path'" using q(5,6) q1 q2 by auto
      then have w: "w \<in> set ?ws" using edge by (simp add: set_successors)
      have "p = ?path' @ q1" using q(1) q1 by simp
      moreover have "q1 \<noteq> []" "hd q1 = w" using q2 by simp_all
      moreover have "last q1 = t" using q(4) q1 \<open>q1 \<noteq> []\<close> by simp
      moreover have "distinct q1" using q(5) q1 by simp
      moreover have "set q1 \<inter> set ?path' = {}" using q(5,6) q1 by auto
      moreover note walk
      moreover have "length q1 \<le> Suc k" using q(8) q1 by simp
      ultimately have "p \<in> ?R k ?path' w" by blast
      with w show "p \<in> (\<Union>w \<in> set ?ws. ?R k ?path' w)" by blast
    qed
    finally show ?thesis .
  qed
qed

lemma find_paths_present_endpoints:
  assumes "has_node (graph kg) s" "has_node (graph kg) t" "0 \<le> k"
  shows "set (find_paths kg s t k)
           = {p. simple_path (graph kg) s t p \<and> int (length p) \<le> k + 1}"
proof -
  have "find_paths kg s t k = visit (graph kg) [t] (nat k) [] s"
    using assms by (simp add: find_paths_def all_simple_paths_def)
  moreover have "set (visit (graph kg) [t] (nat k) [] s)
      = {p. simple_path (graph kg) s t p \<and> length p \<le> Suc (nat k)}"
    using visit_single_target[of t "[]" s "graph kg" "nat k"]
    by (auto simp: simple_path_def)
  moreover have "int (length p) \<le> k + 1 \<longleftrightarrow> length p \<le> Suc (nat k)" for p :: "pystr list"
    using assms(3) by linarith
  ultimately show ?thesis by simp
qed

lemma find_paths_negative: "k < 0 \<Longrightarrow> find_paths kg s t k = []"
  by (simp add: find_paths_def all_simple_paths_def)

lemma find_paths_zero_distinct:
  "has_node (graph kg) t \<Longrightarrow> s \<noteq> t \<Longrightarrow> find_paths kg s t 0 = []"
  by (simp add: find_paths_def all_simple_paths_def)

section \<open>The search query\<close>

lemma user_turns_filter:
  "user_turns ms = map (\<lambda>m. take 100 (content_of m)) (filter is_user ms)"
  by (induction ms) simp_all

text \<open>
  C8, as stated, fails: on a history of three user turns the query holds all three of
  them, not the last two.
\<close>

theorem search_query_counterexample:
  "build_search_query (py ''q'') (Some three_user_turns) = py ''a b c q''
   \<and> spec_search_query (py ''q'') (Some three_user_turns) = py ''b c q''
   \<and> build_search_query (py ''q'') (Some three_user_turns)
       \<noteq> spec_search_query (py ''q'') (Some three_user_turns)"
  by (simp add: build_search_query_def spec_search_query_def three_user_turns_def user_msg_def
      last_n_def is_user_def content_of_def)

text \<open>
  C8, amended. Without a history, or with an empty one, the query is the question. Else
  it is made of the user messages among the last four messages of the history, in their
  order, each cut to its first 100 characters and joined by single spaces, then a space
  and the question; when that window holds no user message it is the question alone.
  There are at most four such turns.
\<close>

theorem build_search_query_window:
  "build_search_query question None = question
   \<and> build_search_query question (Some []) = question
   \<and> (let turns = map (\<lambda>m. take 100 (content_of m)) (filter is_user (last_n 4 h))
      in build_search_query question (Some h)
           = (if turns = [] then question else join (py '' '') turns @ py '' '' @ question)
         \<and> length turns \<le> 4)"
proof -
  have "length (filter is_user (last_n 4 h)) \<le> length (last_n 4 h)" by (rule length_filter_le)
  also have "\<dots> \<le> 4" by (simp add: last_n_def)
  finally have len: "length (filter is_user (last_n 4 h)) \<le> 4" .
  have empty: "h = [] \<Longrightarrow> filter is_user (last_n 4 h) = []" by (simp add: last_n_def)
  show ?thesis
    using len empty
    by (auto simp: build_search_query_def user_turns_filter Let_def)
qed

theorem build_search_query_window_witness:
  "build_search_query (py ''q'') None = py ''q''
   \<and> build_search_query (py ''q'') (Some three_user_turns) = py ''a b c q''"
  using build_search_query_window[of "py ''q''" three_user_turns]
  by (simp add: three_user_turns_def user_msg_def last_n_def is_user_def content_of_def Let_def)

section \<open>Overlap between chunks\<close>


lemma para_step_shift:
  "para_step cs ov ch (cur, pre @ map (reindex (length pre)) acc) p =
     (fst (para_step cs ov ch (cur, acc) p),
      pre @ map (reindex (length pre)) (snd (para_step cs ov ch (cur, acc) p)))"
  by (simp add: para_step_def Let_def new_chunk_def reindex_def)

lemma foldl_para_step_shift:
  "foldl (para_step cs ov ch) (cur, pre @ map (reindex (length pre)) acc) ps =
     (fst (foldl (para_step cs ov ch) (cur, acc) ps),
      pre @ map (reindex (length pre)) (snd (foldl (para_step cs ov ch) (cur, acc) ps)))"
proof (induction ps arbitrary: cur acc)
  case Nil
  then show ?case by simp
next
  case (Cons p ps)
  obtain cur' acc' where step: "para_step cs ov ch (cur, acc) p = (cur', acc')"
    by (cases "para_step cs ov ch (cur, acc) p")
  show ?case using Cons.IH[of cur' acc'] by (simp add: para_step_shift step)
qed

lemma split_section_shift:
  "split_section cs ov ch sec pre = pre @ map (reindex (length pre)) (split_section cs ov ch sec [])"
proof -
  have f: "foldl (para_step cs ov ch) ([], pre) ps =
     (fst (foldl (para_step cs ov ch) ([], []) ps),
      pre @ map (reindex (length pre)) (snd (foldl (para_step cs ov ch) ([], []) ps)))" for ps
    using foldl_para_step_shift[of cs ov ch "[]" pre "[]" ps] by simp
  show ?thesis
    by (simp add: split_section_def Let_def f new_chunk_def reindex_def)
qed

lemma para_step_emits:
  assumes "snd (para_step cs ov ch (cur, emitted) para) \<noteq> emitted"
  shows "strip para \<noteq> []" "\<not> int (length cur) + int (length (strip para)) < cs" "cur \<noteq> []"
  using assms by (auto simp: para_step_def Let_def split: if_splits)

text \<open>
  C6. Whenever a round of the paragraph loop emits a chunk, the chunk is the stripped
  running buffer, and the new buffer is the stripped next paragraph with its separator, preceded
  by the last \<open>chunk_overlap\<close> characters of the emitted buffer exactly when
  \<open>chunk_overlap\<close> is positive and the buffer is longer than it. Each section starts
  from the empty buffer: the chunks of a section are those that the section gives on its
  own, numbered on from the chunks before it.
\<close>

theorem chunk_overlap_policy:
  "(snd (para_step cs ov ch (cur, emitted) para) \<noteq> emitted \<longrightarrow>
      snd (para_step cs ov ch (cur, emitted) para) = emitted @ [new_chunk cur ch emitted]
      \<and> fst (para_step cs ov ch (cur, emitted) para)
          = (if 0 < ov \<and> ov < int (length cur) then drop (length cur - nat ov) cur else [])
            @ strip para @ paragraph_sep
      \<and> (0 < ov \<and> ov < int (length cur) \<longrightarrow>
           suffix (drop (length cur - nat ov) cur) cur
           \<and> int (length (drop (length cur - nat ov) cur)) = ov))
   \<and> split_section cs ov ch sec emitted
       = emitted @ map (reindex (length emitted)) (split_section cs ov ch sec [])"
proof (intro conjI impI)
  assume emit: "snd (para_step cs ov ch (cur, emitted) para) \<noteq> emitted"
  note e = para_step_emits[OF emit]
  show "snd (para_step cs ov ch (cur, emitted) para) = emitted @ [new_chunk cur ch emitted]"
    using e by (simp add: para_step_def Let_def)
  show "fst (para_step cs ov ch (cur, emitted) para)
          = (if 0 < ov \<and> ov < int (length cur) then drop (length cur - nat ov) cur else [])
            @ strip para @ paragraph_sep"
    using e by (simp add: para_step_def Let_def last_n_def)
next
  assume "0 < ov \<and> ov < int (length cur)"
  then show "suffix (drop (length cur - nat ov) cur) cur" by (simp add: suffix_drop)
next
  assume a: "0 < ov \<and> ov < int (length cur)"
  then have "nat ov \<le> length cur" by linarith
  then have "length cur - (length cur - nat ov) = nat ov" by simp
  then show "int (length (drop (length cur - nat ov) cur)) = ov" using a by simp
next
  show "split_section cs ov ch sec emitted
       = emitted @ map (reindex (length emitted)) (split_section cs ov ch sec [])"
    by (rule split_section_shift)
qed

theorem chunk_overlap_policy_witness:
  "snd (para_step 10 3 (py ''ch'') (py ''aaaa bbbb'' @ [10, 10], []) (py '' cccc dddd ''))
       = [] @ [new_chunk (py ''aaaa bbbb'' @ [10, 10]) (py ''ch'') []]
   \<and> fst (para_step 10 3 (py ''ch'') (py ''aaaa bbbb'' @ [10, 10], []) (py '' cccc dddd ''))
       = [98, 10, 10] @ py ''cccc dddd'' @ [10, 10]
   \<and> new_chunk (py ''aaaa bbbb'' @ [10, 10]) (py ''ch'') []
       = \<lparr>chunk_text = py ''aaaa bbbb'', chunk_chapter = py ''ch'', chunk_index = 0\<rparr>"
proof -
  have emit: "snd (para_step 10 3 (py ''ch'') (py ''aaaa bbbb'' @ [10, 10], []) (py '' cccc dddd ''))
                \<noteq> []"
    by (simp add: para_step_def Let_def strip_def is_space_def)
  have s: "strip (py '' cccc dddd '') = py ''cccc dddd''"
    by (simp add: strip_def is_space_def)
  have n: "new_chunk (py ''aaaa bbbb'' @ [10, 10]) (py ''ch'') []
       = \<lparr>chunk_text = py ''aaaa bbbb'', chunk_chapter = py ''ch'', chunk_index = 0\<rparr>"
    by (simp add: new_chunk_def strip_def is_space_def)
  from chunk_overlap_policy[of 10 3 "py ''ch''" "py ''aaaa bbbb'' @ [10, 10]" "[]"
      "py '' cccc dddd ''"] emit s n
  show ?thesis by (simp add: paragraph_sep_def)
qed

section \<open>Exceptions of the generation backend\<close>

lemma generate_answer_on_exception:
  "llm_call client (template (history_text history) ctx question) = Inl msg
     \<Longrightarrow> generate_answer template client question ctx vr history = error_prefix @ msg"
  by (simp add: generate_answer_def)

text \<open>
  C10. The generation backend is called when the question has been printed and the
  vector search has returned, and an exception that it raises then never leaves
  \<open>query\<close>: the exceptions of \<open>query\<close> are the \<open>MarkupError\<close> of printing the
  question and those of the search, the same whatever the backend is; and when the call
  of the backend raises, \<open>query\<close> returns its result, whose answer is the error message
  and whose citations and graph entities are those of the search results and the
  question.
\<close>

theorem query_contains_llm_exception:
  "(\<forall>e. query renders asort cosine threshold round3 template eng question top_k history = Inl e
          \<longleftrightarrow> (\<not> renders (question_line question) \<and> e = MarkupError)
              \<or> (renders (question_line question)
                  \<and> search asort cosine (vector_store eng)
                       (build_search_query question history) top_k = Inl e))
   \<and> (\<forall>e other.
         query renders asort cosine threshold round3 template eng question top_k history = Inl e
          \<longleftrightarrow> query renders asort cosine threshold round3 template (eng\<lparr>llm := other\<rparr>)
                question top_k history = Inl e)
   \<and> (\<forall>vr msg.
         renders (question_line question)
         \<and> search asort cosine (vector_store eng) (build_search_query question history) top_k
             = Inr vr
         \<and> llm_call (llm eng)
             (template (history_text history)
                (build_context threshold vr (get_graph_context (engine_graph eng) question))
                question) = Inl msg
         \<longrightarrow> query renders asort cosine threshold round3 template eng question top_k history
               = Inr \<lparr>answer = error_prefix @ msg,
                      citations = extract_citations threshold round3 vr,
                      graph_entities = get_matched_entities (engine_graph eng) question\<rparr>)"
proof -
  let ?s = "search asort cosine (vector_store eng) (build_search_query question history) top_k"
  have errs: "query renders asort cosine threshold round3 template e' question top_k history = Inl e
          \<longleftrightarrow> (\<not> renders (question_line question) \<and> e = MarkupError)
              \<or> (renders (question_line question) \<and> ?s = Inl e)"
    if "vector_store e' = vector_store eng" for e e'
    using that by (cases ?s) (auto simp: query_def Let_def)
  have a: "\<forall>e. query renders asort cosine threshold round3 template eng question top_k history = Inl e
          \<longleftrightarrow> (\<not> renders (question_line question) \<and> e = MarkupError)
              \<or> (renders (question_line question) \<and> ?s = Inl e)"
    using errs[of eng] by simp
  have b: "\<forall>e other.
         query renders asort cosine threshold round3 template eng question top_k history = Inl e
          \<longleftrightarrow> query renders asort cosine threshold round3 template (eng\<lparr>llm := other\<rparr>)
                question top_k history = Inl e"
    using errs[of eng] errs[of "eng\<lparr>llm := other\<rparr>" for other] by simp
  have c: "\<forall>vr msg.
         renders (question_line question) \<and> ?s = Inr vr
         \<and> llm_call (llm eng)
             (template (history_text history)
                (build_context threshold vr (get_graph_context (engine_graph eng) question))
                question) = Inl msg
         \<longrightarrow> query renders asort cosine threshold round3 template eng question top_k history
               = Inr \<lparr>answer = error_prefix @ msg,
                      citations = extract_citations threshold round3 vr,
                      graph_entities = get_matched_entities (engine_graph eng) question\<rparr>"
    by (simp add: query_def Let_def generate_answer_on_exception)
  from a b c show ?thesis by (intro conjI)
qed

lemma renders_q: "rejects_stray_tag (question_line (py ''q''))"
  by (simp add: rejects_stray_tag_def question_line_def)

lemma rejects_stray: "\<not> rejects_stray_tag (question_line (py ''[/b]''))"
  by (simp add: rejects_stray_tag_def question_line_def)

theorem query_contains_llm_exception_witness:
  "rejects_stray_tag (question_line (py ''q''))
   \<and> search stable_argsort row_score (vector_store failing_engine)
        (build_search_query (py ''q'') None) 2 = Inr [(chunk_a, 100), (chunk_c, 99)]
   \<and> llm_call (llm failing_engine)
        (plain_template (history_text None)
           (build_context (30::int) [(chunk_a, 100), (chunk_c, 99)]
              (get_graph_context (engine_graph failing_engine) (py ''q'')))
           (py ''q'')) = Inl (py ''timeout'')
   \<and> query rejects_stray_tag stable_argsort row_score 30 id plain_template failing_engine
         (py ''q'') 2 None
       = Inr \<lparr>answer = error_prefix @ py ''timeout'',
              citations = extract_citations 30 id [(chunk_a, 100), (chunk_c, 99)],
              graph_entities = []\<rparr>
   \<and> query rejects_stray_tag stable_argsort row_score 30 id plain_template failing_engine
         (py ''[/b]'') 2 None = Inl MarkupError"
proof -
  have h1: "search stable_argsort row_score (vector_store failing_engine)
        (build_search_query (py ''q'') None) 2 = Inr [(chunk_a, 100), (chunk_c, 99)]"
    using search_three by (simp add: failing_engine_def build_search_query_def)
  have h2: "llm_call (llm failing_engine)
        (plain_template (history_text None)
           (build_context (30::int) [(chunk_a, 100), (chunk_c, 99)]
              (get_graph_context (engine_graph failing_engine) (py ''q'')))
           (py ''q'')) = Inl (py ''timeout'')"
    by (simp add: failing_engine_def failing_llm_def llm_call_def)
  have h3: "get_matched_entities (engine_graph failing_engine) (py ''q'') = []"
    by (simp add: failing_engine_def get_matched_entities_def)
  note t1 = query_contains_llm_exception[of rejects_stray_tag stable_argsort row_score 30 id
      plain_template failing_engine "py ''q''" 2 None]
  note t2 = query_contains_llm_exception[of rejects_stray_tag stable_argsort row_score 30 id
      plain_template failing_engine "py ''[/b]''" 2 None]
  from t1 renders_q h1 h2 h3
  have r1: "query rejects_stray_tag stable_argsort row_score 30 id plain_template failing_engine
         (py ''q'') 2 None
       = Inr \<lparr>answer = error_prefix @ py ''timeout'',
              citations = extract_citations 30 id [(chunk_a, 100), (chunk_c, 99)],
              graph_entities = []\<rparr>"
    by simp
  from t2 rejects_stray
  have r2: "query rejects_stray_tag stable_argsort row_score 30 id plain_template failing_engine
         (py ''[/b]'') 2 None = Inl MarkupError"
    by blast
  from renders_q h1 h2 r1 r2 show ?thesis by blast
qed

end
